theory Spec2Isabelle
  imports Main "HOL-Library.Word"
begin

section \<open>The relay connection service (relay-connection.ts)\<close>

text \<open>
  The service is event driven: \<open>connect\<close> and \<open>send\<close> are called by the
  application, everything else happens in callbacks that the socket, the channel and
  the promises invoke later, all on one event loop. The model is a state machine: the
  record \<open>conn\<close> holds the fields of the service together with the objects it has
  created (sockets, channels, promises) and the effects it has had on its collaborators
  (console, dispatcher, processor); every method and every callback of the source is a
  function on that record; \<open>step\<close> dispatches one event of the event loop.
\<close>

subsection \<open>Collaborators\<close>

type_synonym bytes = "8 word list"

text \<open>What a server acknowledges with, and what arrives on the channel: opaque data.\<close>

type_synonym payload = string

text \<open>
  The services the connection reads: \<open>identity.exists()\<close>, \<open>identity.publicKey\<close>
  (a \<open>Uint8Array\<close> or undefined), \<open>relayManager.getRelay().socket\<close> and
  \<open>intl.t\<close>.
\<close>

record env =
  identity_exists :: bool
  identity_publicKey :: "bytes option"
  relay_socket :: string
  intl_t :: "string \<Rightarrow> string"

text \<open>
  Modelled from the spec: \<open>toHex\<close> of \<open>emberclear/src/utils/string-encoding\<close> is
  imported by the service and is not among the source files. The spec calls it the hex
  encoding of the public key and gives bytes \<open>[0xAB, 0xCD]\<close> as \<open>abcd\<close>: two lower-case
  digits for each byte, in order.
\<close>

definition hexDigit :: "nat \<Rightarrow> char" where
  "hexDigit n = ''0123456789abcdef'' ! (n mod 16)"

definition toHex :: "bytes \<Rightarrow> string" where
  "toHex bs = concat (map (\<lambda>b. [hexDigit (unat b div 16), hexDigit (unat b mod 16)]) bs)"

subsection \<open>Promises, acknowledgments, objects\<close>

text \<open>
  What a promise is rejected with: a string, the payload of a server's \<open>error\<close>
  acknowledgment, or the object \<open>{reason: ...}\<close>.
\<close>

datatype reason = Text string | ServerPayload payload | ReasonObject string

datatype 'a promise = Pending | Fulfilled 'a | Rejected reason

text \<open>The three acknowledgments of a join or a push (\<open>receive\<close> of a Phoenix push).\<close>

datatype ack = AckOk payload | AckError payload | AckTimeout

datatype console_entry = ConsoleError string | ConsoleInfo string | ConsoleLog string

record ISendPayload =
  to :: string
  message :: string

text \<open>
  A push on a channel: the event, the payload, and the promise of \<open>send\<close> that its
  acknowledgment settles (an index into \<open>sends\<close>).
\<close>

record push_obj =
  pushEvent :: string
  pushPayload :: ISendPayload
  pushSend :: nat

text \<open>
  A socket made by \<open>new Socket(url, {params: {uid}})\<close>; the counters record the calls
  of \<open>onError\<close>, \<open>onClose\<close>, \<open>connect\<close> and \<open>disconnect\<close> on it.
\<close>

record socket_obj =
  endPoint :: string
  params_uid :: string
  onErrorHandlers :: nat
  onCloseHandlers :: nat
  connectCalls :: nat
  disconnectCalls :: nat

text \<open>
  A channel made by \<open>socket.channel(channelName, {})\<close>: its topic, its socket, the
  \<open>getChannel\<close> promise that the \<open>ok\<close> of its join resolves (an index into
  \<open>promises\<close>), and the pushes made on it.
\<close>

record channel_obj =
  topic :: string
  ofSocket :: nat
  joinPromise :: nat
  pushes :: "push_obj list"

text \<open>
  The promise returned by one call of \<open>send\<close>: suspended at the \<open>await\<close> of the
  \<open>getChannel\<close> promise, waiting for the acknowledgment of its push (channel, index
  of the push), fulfilled (with \<open>undefined\<close>, \<open>None\<close>, after the console error, or
  with the server's payload) or rejected.
\<close>

datatype send_state =
    AwaitChannel nat ISendPayload
  | AwaitPush nat nat
  | SendFulfilled "payload option"
  | SendRejected reason

text \<open>
  The one instance of the \<open>establishConnection\<close> task that can be running: none,
  suspended at \<open>yield this.canConnect()\<close>, or suspended at
  \<open>yield this.getChannel()\<close> on a promise.
\<close>

datatype task_state = TaskIdle | AwaitCanConnect | AwaitGetChannel nat

text \<open>
  The fields of the service (\<open>socket\<close>, \<open>channel\<close>, \<open>channelName\<close>,
  \<open>status\<close>, \<open>statusLevel\<close>, \<open>connected\<close>; a handle is an index into the list
  of objects, an absent field is \<open>None\<close>), then the objects created so far and the
  effects on the collaborators: the console, the calls of \<open>dispatcher.pingAll()\<close> and
  the messages given to \<open>processor.receive\<close>.
\<close>

record conn =
  socket :: "nat option"
  channel :: "nat option"
  channelName :: "string option"
  status :: "string option"
  statusLevel :: "string option"
  connected :: bool
  sockets :: "socket_obj list"
  channels :: "channel_obj list"
  promises :: "nat option promise list"
  sends :: "send_state list"
  task :: task_state
  console :: "console_entry list"
  pings :: nat
  received :: "payload list"

text \<open>A new service: no field is set, \<open>connected = false\<close>, nothing has happened.\<close>

definition init :: conn where
  "init = \<lparr> socket = None, channel = None, channelName = None, status = None,
     statusLevel = None, connected = False, sockets = [], channels = [], promises = [],
     sends = [], task = TaskIdle, console = [], pings = 0, received = [] \<rparr>"

subsection \<open>The handlers\<close>

definition updateStatus :: "string \<Rightarrow> string \<Rightarrow> conn \<Rightarrow> conn" where
  "updateStatus level msg s = (s\<lparr>status := Some msg\<rparr>)\<lparr>statusLevel := Some level\<rparr>"

definition onSocketError :: "env \<Rightarrow> conn \<Rightarrow> conn" where
  "onSocketError e s = updateStatus ''error'' (intl_t e ''connection.status.socket.error'') s"

definition onSocketClose :: "env \<Rightarrow> conn \<Rightarrow> conn" where
  "onSocketClose e s =
     (updateStatus ''info'' (intl_t e ''connection.status.socket.close'') s)\<lparr>connected := False\<rparr>"

text \<open>\<open>socket.disconnect()\<close> on the socket with handle \<open>k\<close>.\<close>

definition disconnect :: "nat \<Rightarrow> conn \<Rightarrow> conn" where
  "disconnect k s =
     s\<lparr>sockets := (sockets s)[k := (sockets s ! k)\<lparr>disconnectCalls := Suc (disconnectCalls (sockets s ! k))\<rparr>]\<rparr>"

definition onChannelError :: "conn \<Rightarrow> conn" where
  "onChannelError s =
     (let s1 = s\<lparr>console := console s @ [ConsoleLog ''channel errored'']\<rparr>
      in case socket s1 of None \<Rightarrow> s1 | Some k \<Rightarrow> disconnect k s1)"

definition onChannelClose :: "conn \<Rightarrow> conn" where
  "onChannelClose s =
     (let s1 = s\<lparr>console := console s @ [ConsoleLog ''channel closed'']\<rparr>
      in case socket s1 of None \<Rightarrow> s1 | Some k \<Rightarrow> disconnect k s1)"

definition handleError :: "payload \<Rightarrow> conn \<Rightarrow> conn" where
  "handleError data s = s\<lparr>console := console s @ [ConsoleError data]\<rparr>"

definition handleConnected :: "env \<Rightarrow> conn \<Rightarrow> conn" where
  "handleConnected e s =
     (let s1 = updateStatus ''info'' (intl_t e ''connection.connected'') s
      in s1\<lparr>pings := Suc (pings s1)\<rparr>)"

definition handleMessage :: "payload \<Rightarrow> conn \<Rightarrow> conn" where
  "handleMessage data s = s\<lparr>received := received s @ [data]\<rparr>"

text \<open>The callback of the join's \<open>timeout\<close>: \<open>console.info\<close> of a localized text.\<close>

definition joinTimeout :: "env \<Rightarrow> conn \<Rightarrow> conn" where
  "joinTimeout e s =
     s\<lparr>console := console s @ [ConsoleInfo (intl_t e ''connection.status.timeout'')]\<rparr>"

subsection \<open>userChannelId and getChannel\<close>

definition userChannelId :: "env \<Rightarrow> string" where
  "userChannelId e = (case identity_publicKey e of None \<Rightarrow> [] | Some publicKey \<Rightarrow> toHex publicKey)"

text \<open>
  \<open>resolve\<close> and \<open>reject\<close> of a promise's executor: they settle a pending promise
  and do nothing to a settled one.
\<close>

definition settle :: "nat \<Rightarrow> nat option promise \<Rightarrow> conn \<Rightarrow> conn" where
  "settle p v s =
     (if p < length (promises s) \<and> promises s ! p = Pending
      then s\<lparr>promises := (promises s)[p := v]\<rparr> else s)"

text \<open>
  \<open>getChannel\<close> makes a promise and runs its executor at once; the result is the
  handle of the promise. \<open>resolve(this.channel)\<close> passes the field as it is read, so the
  promise's value is a \<open>nat option\<close>. \<open>!channelName\<close> holds of an absent name and of
  the empty string. The callbacks of the join are \<open>joinOk\<close>, \<open>handleError\<close> and
  \<open>joinTimeout\<close>; \<open>step\<close> calls them when the acknowledgment arrives.
\<close>

definition getChannel :: "env \<Rightarrow> conn \<Rightarrow> nat \<times> conn" where
  "getChannel e s =
     (let p = length (promises s);
          s0 = s\<lparr>promises := promises s @ [Pending]\<rparr>
      in case channel s of
           Some c \<Rightarrow> (p, settle p (Fulfilled (channel s)) s0)
         | None \<Rightarrow>
            (case socket s of
               None \<Rightarrow>
                 (p, settle p (Rejected (Text (intl_t e ''connection.errors.subscribe.notConnected''))) s0)
             | Some k \<Rightarrow>
                 if channelName s = None \<or> channelName s = Some []
                 then (p, settle p (Rejected (Text ''No Channel Name Specified'')) s0)
                 else
                   (let c = length (channels s0);
                        s1 = s0\<lparr>channels := channels s0 @
                               [\<lparr>topic = (case channelName s of Some n \<Rightarrow> n | None \<Rightarrow> []),
                                 ofSocket = k, joinPromise = p, pushes = []\<rparr>]\<rparr>;
                        s2 = s1\<lparr>channel := Some c\<rparr>
                    in (p, s2))))"

subsection \<open>send\<close>

text \<open>\<open>channel.push(event, payload)\<close> for the \<open>send\<close> promise \<open>k\<close>.\<close>

definition push :: "nat \<Rightarrow> string \<Rightarrow> ISendPayload \<Rightarrow> nat \<Rightarrow> conn \<Rightarrow> conn" where
  "push c ev pl k s =
     s\<lparr>channels := (channels s)[c := (channels s ! c)
         \<lparr>pushes := pushes (channels s ! c) @ [\<lparr>pushEvent = ev, pushPayload = pl, pushSend = k\<rparr>]\<rparr>]\<rparr>"

text \<open>
  The body of \<open>send\<close> after \<open>await this.getChannel()\<close> has given the value \<open>ch\<close>,
  for the \<open>send\<close> promise \<open>k\<close>.
\<close>

definition send_resume :: "env \<Rightarrow> nat \<Rightarrow> ISendPayload \<Rightarrow> nat option \<Rightarrow> conn \<Rightarrow> conn" where
  "send_resume e k pl ch s =
     (case ch of
        None \<Rightarrow>
          (let s1 = s\<lparr>console := console s @
                      [ConsoleError (intl_t e ''connection.errors.send.notConnected'')]\<rparr>
           in s1\<lparr>sends := (sends s1)[k := SendFulfilled None]\<rparr>)
      | Some c \<Rightarrow>
          (let i = length (pushes (channels s ! c));
               s1 = push c ''chat'' pl k s
           in s1\<lparr>sends := (sends s1)[k := AwaitPush c i]\<rparr>))"

text \<open>
  \<open>send(to, data)\<close>: the result is the handle of the promise it returns. An \<open>await\<close>
  of a rejected promise throws, so the promise of \<open>send\<close> is rejected with the same
  reason; an \<open>await\<close> of a pending promise suspends \<open>send\<close>.
\<close>

definition send :: "env \<Rightarrow> string \<Rightarrow> string \<Rightarrow> conn \<Rightarrow> nat \<times> conn" where
  "send e to' data s =
     (let pl = \<lparr>to = to', message = data\<rparr>;
          k = length (sends s);
          (p, s1) = getChannel e s;
          s2 = s1\<lparr>sends := sends s1 @ [AwaitChannel p pl]\<rparr>
      in case promises s2 ! p of
           Pending \<Rightarrow> (k, s2)
         | Rejected r \<Rightarrow> (k, s2\<lparr>sends := (sends s2)[k := SendRejected r]\<rparr>)
         | Fulfilled ch \<Rightarrow> (k, send_resume e k pl ch s2))"

text \<open>
  The callbacks of the push: \<open>resolve\<close> on \<open>ok\<close>, \<open>reject\<close> on \<open>error\<close>, and
  \<open>reject({reason: ...})\<close> on \<open>timeout\<close>. They settle the promise of \<open>send\<close> once.
\<close>

fun awaitsPush :: "send_state \<Rightarrow> bool" where
  "awaitsPush (AwaitPush c i) = True"
| "awaitsPush _ = False"

definition settle_send :: "nat \<Rightarrow> send_state \<Rightarrow> conn \<Rightarrow> conn" where
  "settle_send k v s =
     (if k < length (sends s) \<and> awaitsPush (sends s ! k)
      then s\<lparr>sends := (sends s)[k := v]\<rparr> else s)"

definition pushReceive :: "env \<Rightarrow> nat \<Rightarrow> ack \<Rightarrow> conn \<Rightarrow> conn" where
  "pushReceive e k a s =
     (case a of
        AckOk d \<Rightarrow> settle_send k (SendFulfilled (Some d)) s
      | AckError d \<Rightarrow> settle_send k (SendRejected (ServerPayload d)) s
      | AckTimeout \<Rightarrow>
          settle_send k (SendRejected (ReasonObject (intl_t e ''models.message.errors.timeout''))) s)"

subsection \<open>The join's \<open>ok\<close>\<close>

text \<open>
  What was suspended on the \<open>getChannel\<close> promise \<open>p\<close> continues once it is
  fulfilled with \<open>v\<close>: every \<open>send\<close> awaiting it, and the task, which ends.
\<close>

fun resume_sends :: "env \<Rightarrow> nat \<Rightarrow> nat option \<Rightarrow> nat list \<Rightarrow> conn \<Rightarrow> conn" where
  "resume_sends e p v [] s = s"
| "resume_sends e p v (k # ks) s =
     resume_sends e p v ks
       (case sends s ! k of
          AwaitChannel q pl \<Rightarrow> if q = p then send_resume e k pl v s else s
        | _ \<Rightarrow> s)"

definition resolve :: "env \<Rightarrow> nat \<Rightarrow> nat option \<Rightarrow> conn \<Rightarrow> conn" where
  "resolve e p v s =
     (if p < length (promises s) \<and> promises s ! p = Pending
      then
        (let s1 = settle p (Fulfilled v) s;
             s2 = s1\<lparr>task := (if task s1 = AwaitGetChannel p then TaskIdle else task s1)\<rparr>
         in resume_sends e p v [0..<length (sends s2)] s2)
      else s)"

text \<open>
  The callback of the join's \<open>ok\<close> for the channel \<open>c\<close> (the \<open>const channel\<close> of
  the executor that made it).
\<close>

definition joinOk :: "env \<Rightarrow> nat \<Rightarrow> conn \<Rightarrow> conn" where
  "joinOk e c s =
     (let s1 = s\<lparr>connected := True\<rparr>;
          s2 = handleConnected e s1
      in resolve e (joinPromise (channels s2 ! c)) (Some c) s2)"

subsection \<open>connect and establishConnection\<close>

text \<open>
  \<open>establishConnection\<close> is declared \<open>@dropTask\<close>: a task of ember-concurrency with
  the drop policy, of which at most one instance runs; a \<open>perform()\<close> made while an
  instance is running is dropped, not queued (the spec says the same of \<open>connect()\<close>).
  The decorator is imported from \<open>ember-concurrency-decorators\<close>, a library outside the
  repository. \<open>perform\<close> starts the task when none is running; the task then runs to
  its first \<open>yield\<close>, the call of \<open>canConnect\<close>, whose promise
  (\<open>identity.exists()\<close>) settles in a later turn of the event loop.
\<close>

definition perform :: "conn \<Rightarrow> conn" where
  "perform s = (if task s = TaskIdle then s\<lparr>task := AwaitCanConnect\<rparr> else s)"

definition connect :: "conn \<Rightarrow> conn" where
  "connect s = perform s"

definition canConnect :: "env \<Rightarrow> bool" where
  "canConnect e = identity_exists e"

text \<open>The calls on the socket with handle \<open>k\<close> that \<open>establishConnection\<close> makes.\<close>

definition socket_onError :: "nat \<Rightarrow> conn \<Rightarrow> conn" where
  "socket_onError k s =
     s\<lparr>sockets := (sockets s)[k := (sockets s ! k)\<lparr>onErrorHandlers := Suc (onErrorHandlers (sockets s ! k))\<rparr>]\<rparr>"

definition socket_onClose :: "nat \<Rightarrow> conn \<Rightarrow> conn" where
  "socket_onClose k s =
     s\<lparr>sockets := (sockets s)[k := (sockets s ! k)\<lparr>onCloseHandlers := Suc (onCloseHandlers (sockets s ! k))\<rparr>]\<rparr>"

definition socket_connect :: "nat \<Rightarrow> conn \<Rightarrow> conn" where
  "socket_connect k s =
     s\<lparr>sockets := (sockets s)[k := (sockets s ! k)\<lparr>connectCalls := Suc (connectCalls (sockets s ! k))\<rparr>]\<rparr>"

text \<open>
  The body of \<open>establishConnection\<close> from the point where \<open>canConnect\<close> has given its
  value, up to the end of the task or to its suspension at \<open>yield this.getChannel()\<close>.
\<close>

definition establishConnection :: "env \<Rightarrow> conn \<Rightarrow> conn" where
  "establishConnection e s =
     (if \<not> canConnect e \<or> connected s then s\<lparr>task := TaskIdle\<rparr>
      else
        (let s1 = updateStatus ''info'' (intl_t e ''connection.connecting'') s;
             publicKey = userChannelId e;
             url = relay_socket e;
             k = length (sockets s1);
             s2 = s1\<lparr>sockets := sockets s1 @
                    [\<lparr>endPoint = url, params_uid = publicKey, onErrorHandlers = 0,
                      onCloseHandlers = 0, connectCalls = 0, disconnectCalls = 0\<rparr>]\<rparr>;
             s3 = s2\<lparr>socket := Some k\<rparr>;
             s4 = s3\<lparr>channelName := Some (''user:'' @ publicKey)\<rparr>;
             s5 = socket_onError k s4;
             s6 = socket_onClose k s5;
             s7 = socket_connect k s6;
             (p, s8) = getChannel e s7
         in case promises s8 ! p of
              Pending \<Rightarrow> s8\<lparr>task := AwaitGetChannel p\<rparr>
            | _ \<Rightarrow> s8\<lparr>task := TaskIdle\<rparr>))"

subsection \<open>The event loop\<close>

text \<open>
  One turn of the event loop: a call of \<open>connect\<close> or \<open>send\<close> by the application,
  the value of \<open>canConnect\<close> arriving at the suspended task, an acknowledgment of the
  join of a channel or of a push on it, an error or a close of a socket or a channel,
  or a \<open>chat\<close> event. An event for an object that does not exist, or for a task that is
  not waiting, does not occur: the state stays as it is.
\<close>

datatype event =
    Connect
  | CanConnectResolved
  | Send string string
  | JoinAck nat ack
  | PushAck nat nat ack
  | SocketError
  | SocketClose
  | ChannelError
  | ChannelClose
  | Chat payload

fun step :: "env \<Rightarrow> event \<Rightarrow> conn \<Rightarrow> conn" where
  "step e Connect s = connect s"
| "step e CanConnectResolved s =
     (if task s = AwaitCanConnect then establishConnection e s else s)"
| "step e (Send to' data) s = snd (send e to' data s)"
| "step e (JoinAck c a) s =
     (if c < length (channels s)
      then (case a of AckOk d \<Rightarrow> joinOk e c s
                    | AckError d \<Rightarrow> handleError d s
                    | AckTimeout \<Rightarrow> joinTimeout e s)
      else s)"
| "step e (PushAck c i a) s =
     (if c < length (channels s) \<and> i < length (pushes (channels s ! c))
      then pushReceive e (pushSend (pushes (channels s ! c) ! i)) a s
      else s)"
| "step e SocketError s = (if sockets s = [] then s else onSocketError e s)"
| "step e SocketClose s = (if sockets s = [] then s else onSocketClose e s)"
| "step e ChannelError s = (if channels s = [] then s else onChannelError s)"
| "step e ChannelClose s = (if channels s = [] then s else onChannelClose s)"
| "step e (Chat data) s = (if channels s = [] then s else handleMessage data s)"

fun run :: "env \<Rightarrow> event list \<Rightarrow> conn \<Rightarrow> conn" where
  "run e [] s = s"
| "run e (ev # evs) s = run e evs (step e ev s)"

subsection \<open>The invariant of the channel name\<close>

text \<open>
  The spec's invariant: a channel name that is set and not empty needs a public key.
\<close>

definition channelNameInv :: "env \<Rightarrow> conn \<Rightarrow> bool" where
  "channelNameInv e s \<longleftrightarrow>
     (case channelName s of None \<Rightarrow> True | Some n \<Rightarrow> n = [] \<or> identity_publicKey e \<noteq> None)"

subsection \<open>The invariant of the memoized channel\<close>

text \<open>
  \<open>this.channel\<close> is set when the channel is made and is never cleared, so a
  connection makes at most one channel: either there is no channel object and the
  field is unset, or there is one, the field holds it, and the \<open>getChannel\<close> promise
  of its join is pending or fulfilled with it. The invariant reads the channels through
  the promises of their joins only.
\<close>

fun oneChannel :: "nat list \<Rightarrow> nat option \<Rightarrow> nat option promise list \<Rightarrow> bool" where
  "oneChannel [] ch ps \<longleftrightarrow> ch = None"
| "oneChannel [p] ch ps \<longleftrightarrow>
     ch = Some 0 \<and> p < length ps \<and> (ps ! p = Pending \<or> ps ! p = Fulfilled (Some 0))"
| "oneChannel (p # q # qs) ch ps \<longleftrightarrow> False"

definition joinInv :: "conn \<Rightarrow> bool" where
  "joinInv s \<longleftrightarrow> oneChannel (map joinPromise (channels s)) (channel s) (promises s)"

section \<open>Basic facts\<close>

subsection \<open>What each operation leaves alone\<close>

lemma frame_refl: "\<exists>chs sds. s = s\<lparr>channels := chs, sends := sds\<rparr>"
  by (rule exI [of _ "channels s"], rule exI [of _ "sends s"]) simp

lemma send_resume_frame:
  "\<exists>chs sds. send_resume e k pl (Some c) s = s\<lparr>channels := chs, sends := sds\<rparr>"
  by (simp add: send_resume_def push_def Let_def) blast

lemma resume_sends_frame:
  "\<exists>chs sds. resume_sends e p (Some c) ks s = s\<lparr>channels := chs, sends := sds\<rparr>"
proof (induction ks arbitrary: s)
  case Nil
  show ?case using frame_refl [of s] by simp
next
  case (Cons k ks)
  define s' where "s' = (case sends s ! k of
          AwaitChannel q pl \<Rightarrow> if q = p then send_resume e k pl (Some c) s else s
        | _ \<Rightarrow> s)"
  have "\<exists>chs sds. s' = s\<lparr>channels := chs, sends := sds\<rparr>"
    unfolding s'_def using frame_refl [of s] send_resume_frame [of e k _ c s]
    by (cases "sends s ! k") simp_all
  then obtain chs sds where s': "s' = s\<lparr>channels := chs, sends := sds\<rparr>" by blast
  from Cons.IH [of s'] obtain chs' sds' where
    "resume_sends e p (Some c) ks s' = s'\<lparr>channels := chs', sends := sds'\<rparr>" by blast
  then have "resume_sends e p (Some c) (k # ks) s = s\<lparr>channels := chs', sends := sds'\<rparr>"
    by (simp add: s'_def [symmetric] s')
  then show ?case by blast
qed

lemma resolve_frame:
  "\<exists>chs sds ps t. resolve e p (Some c) s = s\<lparr>channels := chs, sends := sds, promises := ps, task := t\<rparr>"
proof (cases "p < length (promises s) \<and> promises s ! p = Pending")
  case True
  define t where "t = (if task s = AwaitGetChannel p then TaskIdle else task s)"
  define s2 where "s2 = s\<lparr>promises := (promises s)[p := Fulfilled (Some c)], task := t\<rparr>"
  from resume_sends_frame [of e p c "[0..<length (sends s2)]" s2] obtain chs sds where
    "resume_sends e p (Some c) [0..<length (sends s2)] s2 = s2\<lparr>channels := chs, sends := sds\<rparr>"
    by blast
  then have "resolve e p (Some c) s = s\<lparr>channels := chs, sends := sds,
      promises := (promises s)[p := Fulfilled (Some c)], task := t\<rparr>"
    using True
    by (cases "task s = AwaitGetChannel p") (simp_all add: resolve_def settle_def s2_def Let_def t_def)
  then show ?thesis by blast
next
  case False
  then have "resolve e p (Some c) s = s" by (auto simp add: resolve_def)
  then have "resolve e p (Some c) s =
      s\<lparr>channels := channels s, sends := sends s, promises := promises s, task := task s\<rparr>"
    by simp
  then show ?thesis by blast
qed

lemma getChannel_memo:
  "channel s = Some c \<Longrightarrow>
   getChannel e s = (length (promises s), s\<lparr>promises := promises s @ [Fulfilled (Some c)]\<rparr>)"
  by (simp add: getChannel_def settle_def)

lemma getChannel_no_socket:
  "channel s = None \<Longrightarrow> socket s = None \<Longrightarrow>
   getChannel e s = (length (promises s),
     s\<lparr>promises := promises s @ [Rejected (Text (intl_t e ''connection.errors.subscribe.notConnected''))]\<rparr>)"
  by (simp add: getChannel_def settle_def)

lemma getChannel_no_name:
  "channel s = None \<Longrightarrow> socket s = Some k \<Longrightarrow> channelName s = None \<or> channelName s = Some [] \<Longrightarrow>
   getChannel e s = (length (promises s),
     s\<lparr>promises := promises s @ [Rejected (Text ''No Channel Name Specified'')]\<rparr>)"
  by (auto simp add: getChannel_def settle_def)

lemma getChannel_join:
  "channel s = None \<Longrightarrow> socket s = Some k \<Longrightarrow> channelName s = Some n \<Longrightarrow> n \<noteq> [] \<Longrightarrow>
   getChannel e s = (length (promises s),
     s\<lparr>promises := promises s @ [Pending],
       channels := channels s @ [\<lparr>topic = n, ofSocket = k, joinPromise = length (promises s), pushes = []\<rparr>],
       channel := Some (length (channels s))\<rparr>)"
  by (simp add: getChannel_def settle_def Let_def)

lemma send_memo:
  "channel s = Some c \<Longrightarrow>
   send e to' data s = (length (sends s),
     s\<lparr>promises := promises s @ [Fulfilled (Some c)],
       channels := (channels s)[c := (channels s ! c)\<lparr>pushes := pushes (channels s ! c) @
          [\<lparr>pushEvent = ''chat'', pushPayload = \<lparr>to = to', message = data\<rparr>, pushSend = length (sends s)\<rparr>]\<rparr>],
       sends := sends s @ [AwaitPush c (length (pushes (channels s ! c)))]\<rparr>)"
  by (simp add: send_def getChannel_memo send_resume_def push_def Let_def)

lemma send_no_socket:
  "channel s = None \<Longrightarrow> socket s = None \<Longrightarrow>
   send e to' data s = (length (sends s),
     s\<lparr>promises := promises s @ [Rejected (Text (intl_t e ''connection.errors.subscribe.notConnected''))],
       sends := sends s @ [SendRejected (Text (intl_t e ''connection.errors.subscribe.notConnected''))]\<rparr>)"
  by (simp add: send_def getChannel_no_socket)

lemma send_no_name:
  "channel s = None \<Longrightarrow> socket s = Some k \<Longrightarrow> channelName s = None \<or> channelName s = Some [] \<Longrightarrow>
   send e to' data s = (length (sends s),
     s\<lparr>promises := promises s @ [Rejected (Text ''No Channel Name Specified'')],
       sends := sends s @ [SendRejected (Text ''No Channel Name Specified'')]\<rparr>)"
  by (simp add: send_def getChannel_no_name)

lemma send_join:
  "channel s = None \<Longrightarrow> socket s = Some k \<Longrightarrow> channelName s = Some n \<Longrightarrow> n \<noteq> [] \<Longrightarrow>
   send e to' data s = (length (sends s),
     s\<lparr>promises := promises s @ [Pending],
       channels := channels s @ [\<lparr>topic = n, ofSocket = k, joinPromise = length (promises s), pushes = []\<rparr>],
       channel := Some (length (channels s)),
       sends := sends s @ [AwaitChannel (length (promises s)) \<lparr>to = to', message = data\<rparr>]\<rparr>)"
  by (simp add: send_def getChannel_join)

subsection \<open>The cases of establishConnection; runs of connect\<close>

lemma establishConnection_refused:
  "\<not> identity_exists e \<or> connected s \<Longrightarrow> establishConnection e s = s\<lparr>task := TaskIdle\<rparr>"
  by (auto simp add: establishConnection_def canConnect_def)

lemma establishConnection_memo:
  "identity_exists e \<Longrightarrow> \<not> connected s \<Longrightarrow> channel s = Some c \<Longrightarrow>
   establishConnection e s =
     s\<lparr>status := Some (intl_t e ''connection.connecting''), statusLevel := Some ''info'',
       sockets := sockets s @ [\<lparr>endPoint = relay_socket e, params_uid = userChannelId e,
          onErrorHandlers = 1, onCloseHandlers = 1, connectCalls = 1, disconnectCalls = 0\<rparr>],
       socket := Some (length (sockets s)),
       channelName := Some (''user:'' @ userChannelId e),
       promises := promises s @ [Fulfilled (Some c)],
       task := TaskIdle\<rparr>"
  by (simp add: establishConnection_def canConnect_def updateStatus_def socket_onError_def
      socket_onClose_def socket_connect_def getChannel_memo Let_def)

lemma establishConnection_join:
  "identity_exists e \<Longrightarrow> \<not> connected s \<Longrightarrow> channel s = None \<Longrightarrow>
   establishConnection e s =
     s\<lparr>status := Some (intl_t e ''connection.connecting''), statusLevel := Some ''info'',
       sockets := sockets s @ [\<lparr>endPoint = relay_socket e, params_uid = userChannelId e,
          onErrorHandlers = 1, onCloseHandlers = 1, connectCalls = 1, disconnectCalls = 0\<rparr>],
       socket := Some (length (sockets s)),
       channelName := Some (''user:'' @ userChannelId e),
       promises := promises s @ [Pending],
       channels := channels s @ [\<lparr>topic = ''user:'' @ userChannelId e, ofSocket = length (sockets s),
          joinPromise = length (promises s), pushes = []\<rparr>],
       channel := Some (length (channels s)),
       task := AwaitGetChannel (length (promises s))\<rparr>"
  by (simp add: establishConnection_def canConnect_def updateStatus_def socket_onError_def
      socket_onClose_def socket_connect_def getChannel_join Let_def)


lemma connect_cases:
  "connect s = (if task s = TaskIdle then s\<lparr>task := AwaitCanConnect\<rparr> else s)"
  by (simp add: connect_def perform_def)

lemma run_append: "run e (xs @ ys) s = run e ys (run e xs s)"
  by (induction xs arbitrary: s) simp_all

lemma run_connects_dropped:
  "task s \<noteq> TaskIdle \<Longrightarrow> run e (replicate n Connect) s = s"
  by (induction n) (simp_all add: connect_cases)

lemma run_connects_frame:
  "\<exists>t. run e (replicate n Connect) s = s\<lparr>task := t\<rparr>"
proof (cases "task s = TaskIdle")
  case False
  then have "run e (replicate n Connect) s = s\<lparr>task := task s\<rparr>"
    by (simp add: run_connects_dropped)
  then show ?thesis by blast
next
  case True
  show ?thesis
  proof (cases n)
    case 0
    have "run e (replicate 0 Connect) s = s\<lparr>task := task s\<rparr>" by simp
    then show ?thesis using 0 by blast
  next
    case (Suc m)
    have "run e (replicate m Connect) (s\<lparr>task := AwaitCanConnect\<rparr>) = s\<lparr>task := AwaitCanConnect\<rparr>"
      by (rule run_connects_dropped) simp
    then have "run e (replicate n Connect) s = s\<lparr>task := AwaitCanConnect\<rparr>"
      using True Suc by (simp add: connect_cases)
    then show ?thesis by blast
  qed
qed

subsection \<open>The channel name along a run\<close>

lemma send_frame:
  "\<exists>chs ps ch sds. snd (send e to' data s) =
     s\<lparr>channels := chs, promises := ps, channel := ch, sends := sds\<rparr>"
proof -
  have r: "\<And>t. t = s\<lparr>channels := channels t, promises := promises t, channel := channel t, sends := sends t\<rparr>
     \<Longrightarrow> \<exists>chs ps ch sds. t = s\<lparr>channels := chs, promises := ps, channel := ch, sends := sds\<rparr>"
    by blast
  show ?thesis
  proof (cases "channel s")
    case (Some c)
    show ?thesis by (rule r) (simp add: send_memo [OF Some])
  next
    case None
    show ?thesis
    proof (cases "socket s")
      case no: None
      show ?thesis by (rule r) (simp add: send_no_socket [OF None no])
    next
      case (Some k)
      show ?thesis
      proof (cases "channelName s = None \<or> channelName s = Some []")
        case True
        show ?thesis by (rule r) (simp add: send_no_name [OF None Some True])
      next
        case False
        then obtain n where n: "channelName s = Some n" "n \<noteq> []" by auto
        show ?thesis by (rule r) (simp add: send_join [OF None Some n])
      qed
    qed
  qed
qed

lemma joinOk_frame:
  "\<exists>chs sds ps t. joinOk e c s =
     s\<lparr>connected := True, status := Some (intl_t e ''connection.connected''),
       statusLevel := Some ''info'', pings := Suc (pings s),
       channels := chs, sends := sds, promises := ps, task := t\<rparr>"
proof -
  define s2 where "s2 = s\<lparr>connected := True, status := Some (intl_t e ''connection.connected''),
       statusLevel := Some ''info'', pings := Suc (pings s)\<rparr>"
  obtain chs sds ps t where
    "resolve e (joinPromise (channels s2 ! c)) (Some c) s2 =
       s2\<lparr>channels := chs, sends := sds, promises := ps, task := t\<rparr>"
    using resolve_frame [of e "joinPromise (channels s2 ! c)" c s2] by blast
  then have "joinOk e c s =
     s\<lparr>connected := True, status := Some (intl_t e ''connection.connected''),
       statusLevel := Some ''info'', pings := Suc (pings s),
       channels := chs, sends := sds, promises := ps, task := t\<rparr>"
    by (simp add: joinOk_def handleConnected_def updateStatus_def Let_def s2_def)
  then show ?thesis by blast
qed

lemma pushReceive_frame: "\<exists>sds. pushReceive e k a s = s\<lparr>sends := sds\<rparr>"
proof -
  have r: "\<And>t. t = s\<lparr>sends := sends t\<rparr> \<Longrightarrow> \<exists>sds. t = s\<lparr>sends := sds\<rparr>" by blast
  show ?thesis
    by (rule r) (cases a; simp add: pushReceive_def settle_send_def)
qed

lemma step_channelName:
  "ev \<noteq> CanConnectResolved \<Longrightarrow> channelName (step e ev s) = channelName s"
proof (cases ev)
  case (Send to' data)
  obtain chs ps ch sds where
    "snd (send e to' data s) = s\<lparr>channels := chs, promises := ps, channel := ch, sends := sds\<rparr>"
    using send_frame by blast
  then show ?thesis using Send by simp
next
  case (JoinAck c a)
  obtain chs sds ps t where "joinOk e c s =
     s\<lparr>connected := True, status := Some (intl_t e ''connection.connected''),
       statusLevel := Some ''info'', pings := Suc (pings s),
       channels := chs, sends := sds, promises := ps, task := t\<rparr>"
    using joinOk_frame by blast
  then show ?thesis using JoinAck
    by (cases a) (simp_all add: handleError_def joinTimeout_def)
next
  case (PushAck c i a)
  obtain sds where "pushReceive e (pushSend (pushes (channels s ! c) ! i)) a s = s\<lparr>sends := sds\<rparr>"
    using pushReceive_frame by blast
  then show ?thesis using PushAck by simp
qed (simp_all add: connect_cases onSocketError_def onSocketClose_def updateStatus_def
      onChannelError_def onChannelClose_def disconnect_def handleMessage_def Let_def
      split: option.splits)

lemma establishConnection_channelName:
  "channelName (establishConnection e s) =
     (if \<not> identity_exists e \<or> connected s then channelName s
      else Some (''user:'' @ userChannelId e))"
proof (cases "\<not> identity_exists e \<or> connected s")
  case True
  then show ?thesis by (simp add: establishConnection_refused)
next
  case False
  then show ?thesis
    by (cases "channel s") (simp_all add: establishConnection_memo establishConnection_join)
qed

subsection \<open>Resumed sends and the join's promise\<close>

lemma push_joinPromise:
  "map joinPromise (channels (push c ev pl k s)) = map joinPromise (channels s)"
proof (cases "c < length (channels s)")
  case True
  then show ?thesis
    by (simp add: push_def map_update list_update_same_conv)
next
  case False
  then have "(channels s)[c := x] = channels s" for x
    by (intro list_update_beyond) simp
  then show ?thesis by (simp add: push_def)
qed

lemma send_resume_joinPromise:
  "map joinPromise (channels (send_resume e k pl (Some c) s)) = map joinPromise (channels s)"
  by (simp add: send_resume_def Let_def push_joinPromise)

lemma send_resume_sends:
  "SendFulfilled None \<notin> set (sends s) \<Longrightarrow>
   SendFulfilled None \<notin> set (sends (send_resume e k pl (Some c) s))"
  using set_update_subset_insert [of "sends s" k "AwaitPush c (length (pushes (channels s ! c)))"]
  by (auto simp add: send_resume_def Let_def push_def)

lemma resume_sends_joinPromise:
  "map joinPromise (channels (resume_sends e p (Some c) ks s)) = map joinPromise (channels s)"
proof (induction ks arbitrary: s)
  case Nil
  show ?case by simp
next
  case (Cons k ks)
  show ?case
    by (cases "sends s ! k") (simp_all add: Cons.IH send_resume_joinPromise)
qed

lemma resume_sends_sends:
  "SendFulfilled None \<notin> set (sends s) \<Longrightarrow>
   SendFulfilled None \<notin> set (sends (resume_sends e p (Some c) ks s))"
proof (induction ks arbitrary: s)
  case Nil
  then show ?case by simp
next
  case (Cons k ks)
  show ?case
  proof (cases "sends s ! k")
    case (AwaitChannel q pl)
    show ?thesis
    proof (cases "q = p")
      case True
      have "SendFulfilled None \<notin> set (sends (send_resume e k pl (Some c) s))"
        using Cons.prems by (rule send_resume_sends)
      then show ?thesis using AwaitChannel True by (simp add: Cons.IH)
    next
      case False
      then show ?thesis using AwaitChannel Cons.prems by (simp add: Cons.IH)
    qed
  qed (simp_all add: Cons.IH Cons.prems)
qed

lemma resolve_promises:
  "promises (resolve e p (Some c) s) =
     (if p < length (promises s) \<and> promises s ! p = Pending
      then (promises s)[p := Fulfilled (Some c)] else promises s)"
proof (cases "p < length (promises s) \<and> promises s ! p = Pending")
  case True
  define s2 where "s2 = s\<lparr>promises := (promises s)[p := Fulfilled (Some c)],
      task := (if task s = AwaitGetChannel p then TaskIdle else task s)\<rparr>"
  obtain chs sds where
    "resume_sends e p (Some c) [0..<length (sends s2)] s2 = s2\<lparr>channels := chs, sends := sds\<rparr>"
    using resume_sends_frame by blast
  then have "promises (resume_sends e p (Some c) [0..<length (sends s2)] s2) = promises s2"
    by simp
  moreover have "resolve e p (Some c) s = resume_sends e p (Some c) [0..<length (sends s2)] s2"
    using True by (simp add: resolve_def settle_def Let_def s2_def)
  ultimately show ?thesis using True by (simp add: s2_def)
next
  case False
  then show ?thesis by (auto simp add: resolve_def)
qed

lemma resolve_joinPromise:
  "map joinPromise (channels (resolve e p (Some c) s)) = map joinPromise (channels s)"
proof (cases "p < length (promises s) \<and> promises s ! p = Pending")
  case True
  then show ?thesis
    by (simp add: resolve_def settle_def Let_def resume_sends_joinPromise)
next
  case False
  then show ?thesis by (auto simp add: resolve_def)
qed

lemma resolve_sends:
  "SendFulfilled None \<notin> set (sends s) \<Longrightarrow>
   SendFulfilled None \<notin> set (sends (resolve e p (Some c) s))"
proof (cases "p < length (promises s) \<and> promises s ! p = Pending")
  case True
  assume "SendFulfilled None \<notin> set (sends s)"
  then show ?thesis using True
    by (simp add: resolve_def settle_def Let_def resume_sends_sends)
next
  case False
  assume "SendFulfilled None \<notin> set (sends s)"
  then show ?thesis using False by (auto simp add: resolve_def)
qed

subsection \<open>At most one channel along a run\<close>

lemma joinInv_None: "joinInv s \<Longrightarrow> channel s = None \<Longrightarrow> channels s = []"
  by (auto simp add: joinInv_def elim: oneChannel.elims)

lemma joinInv_channel:
  "joinInv s \<Longrightarrow> c < length (channels s) \<Longrightarrow>
   c = 0 \<and> channel s = Some 0 \<and> (\<exists>ch. channels s = [ch] \<and> joinPromise ch < length (promises s) \<and>
     (promises s ! joinPromise ch = Pending \<or> promises s ! joinPromise ch = Fulfilled (Some 0)))"
  by (auto simp add: joinInv_def elim!: oneChannel.elims)

lemma joinInv_Some:
  "joinInv s \<Longrightarrow> channel s = Some c \<Longrightarrow>
   c = 0 \<and> (\<exists>ch. channels s = [ch] \<and> joinPromise ch < length (promises s) \<and>
     (promises s ! joinPromise ch = Pending \<or> promises s ! joinPromise ch = Fulfilled (Some 0)))"
  by (auto simp add: joinInv_def elim!: oneChannel.elims)

lemma joinInv_establishConnection:
  assumes "joinInv s"
  shows "joinInv (establishConnection e s)"
proof (cases "\<not> identity_exists e \<or> connected s")
  case True
  then show ?thesis using assms by (simp add: establishConnection_refused joinInv_def)
next
  case False
  show ?thesis
  proof (cases "channel s")
    case None
    with assms have "channels s = []" by (rule joinInv_None)
    then show ?thesis using False None
      by (simp add: establishConnection_join joinInv_def)
  next
    case (Some c)
    with assms obtain ch where "c = 0" "channels s = [ch]" "joinPromise ch < length (promises s)"
      "promises s ! joinPromise ch = Pending \<or> promises s ! joinPromise ch = Fulfilled (Some 0)"
      using joinInv_Some by blast
    then show ?thesis using False Some
      by (simp add: establishConnection_memo joinInv_def nth_append)
  qed
qed

lemma joinInv_send:
  assumes "joinInv s"
  shows "joinInv (snd (send e to' data s))"
proof (cases "channel s")
  case (Some c)
  with assms obtain ch where "c = 0" "channels s = [ch]" "joinPromise ch < length (promises s)"
      "promises s ! joinPromise ch = Pending \<or> promises s ! joinPromise ch = Fulfilled (Some 0)"
    using joinInv_Some by blast
  then show ?thesis using Some
    by (simp add: send_memo joinInv_def nth_append)
next
  case None
  with assms have e: "channels s = []" by (rule joinInv_None)
  show ?thesis
  proof (cases "socket s")
    case no: None
    show ?thesis using e None by (simp add: send_no_socket [OF None no] joinInv_def)
  next
    case (Some k)
    show ?thesis
    proof (cases "channelName s = None \<or> channelName s = Some []")
      case True
      show ?thesis using e None by (simp add: send_no_name [OF None Some True] joinInv_def)
    next
      case False
      then obtain n where n: "channelName s = Some n" "n \<noteq> []" by auto
      show ?thesis using e by (simp add: send_join [OF None Some n] joinInv_def)
    qed
  qed
qed

lemma joinOk_channel_promises:
  "channel (joinOk e c s) = channel s
   \<and> map joinPromise (channels (joinOk e c s)) = map joinPromise (channels s)
   \<and> promises (joinOk e c s) =
       (if joinPromise (channels s ! c) < length (promises s) \<and>
           promises s ! joinPromise (channels s ! c) = Pending
        then (promises s)[joinPromise (channels s ! c) := Fulfilled (Some c)] else promises s)"
proof -
  obtain chs sds ps t where "joinOk e c s =
     s\<lparr>connected := True, status := Some (intl_t e ''connection.connected''),
       statusLevel := Some ''info'', pings := Suc (pings s),
       channels := chs, sends := sds, promises := ps, task := t\<rparr>"
    using joinOk_frame by blast
  then have "channel (joinOk e c s) = channel s" by simp
  then show ?thesis
    by (simp add: joinOk_def handleConnected_def updateStatus_def Let_def resolve_promises
        resolve_joinPromise)
qed

lemma joinInv_joinOk:
  assumes "joinInv s" and "c < length (channels s)"
  shows "joinInv (joinOk e c s)
    \<and> promises (joinOk e c s) ! joinPromise (channels s ! c) = Fulfilled (Some c)"
proof -
  from assms obtain ch where c: "c = 0" "channel s = Some 0" "channels s = [ch]"
      "joinPromise ch < length (promises s)"
      "promises s ! joinPromise ch = Pending \<or> promises s ! joinPromise ch = Fulfilled (Some 0)"
    using joinInv_channel by blast
  show ?thesis
    using c joinOk_channel_promises [of e c s]
    by (auto simp add: joinInv_def)
qed

lemma joinInv_step:
  assumes "joinInv s"
  shows "joinInv (step e ev s)"
proof (cases ev)
  case Connect
  then show ?thesis using assms by (simp add: connect_cases joinInv_def)
next
  case CanConnectResolved
  then show ?thesis using assms by (simp add: joinInv_establishConnection)
next
  case (Send to' data)
  then show ?thesis using assms by (simp add: joinInv_send)
next
  case (JoinAck c a)
  show ?thesis
  proof (cases a)
    case (AckOk d)
    then show ?thesis using JoinAck assms joinInv_joinOk [of s c e] by simp
  next
    case (AckError d)
    then show ?thesis using JoinAck assms by (simp add: handleError_def joinInv_def)
  next
    case AckTimeout
    then show ?thesis using JoinAck assms by (simp add: joinTimeout_def joinInv_def)
  qed
next
  case (PushAck c i a)
  obtain sds where "pushReceive e (pushSend (pushes (channels s ! c) ! i)) a s = s\<lparr>sends := sds\<rparr>"
    using pushReceive_frame by blast
  then show ?thesis using PushAck assms by (simp add: joinInv_def)
next
  case SocketError
  then show ?thesis using assms by (simp add: onSocketError_def updateStatus_def joinInv_def)
next
  case SocketClose
  then show ?thesis using assms by (simp add: onSocketClose_def updateStatus_def joinInv_def)
next
  case ChannelError
  then show ?thesis using assms
    by (auto simp add: onChannelError_def disconnect_def joinInv_def Let_def split: option.splits)
next
  case ChannelClose
  then show ?thesis using assms
    by (auto simp add: onChannelClose_def disconnect_def joinInv_def Let_def split: option.splits)
next
  case (Chat d)
  then show ?thesis using assms by (auto simp add: handleMessage_def joinInv_def)
qed

lemma joinInv_run: "joinInv s \<Longrightarrow> joinInv (run e evs s)"
  by (induction evs arbitrary: s) (simp_all add: joinInv_step)

lemma joinInv_init: "joinInv init"
  by (simp add: joinInv_def init_def)


lemma joinOk_fields:
  "connected (joinOk e c s) \<and> status (joinOk e c s) = Some (intl_t e ''connection.connected'')
   \<and> statusLevel (joinOk e c s) = Some ''info'' \<and> pings (joinOk e c s) = Suc (pings s)
   \<and> console (joinOk e c s) = console s \<and> socket (joinOk e c s) = socket s
   \<and> channelName (joinOk e c s) = channelName s \<and> sockets (joinOk e c s) = sockets s
   \<and> received (joinOk e c s) = received s"
proof -
  obtain chs sds ps t where "joinOk e c s =
     s\<lparr>connected := True, status := Some (intl_t e ''connection.connected''),
       statusLevel := Some ''info'', pings := Suc (pings s),
       channels := chs, sends := sds, promises := ps, task := t\<rparr>"
    using joinOk_frame by blast
  then show ?thesis by simp
qed

subsection \<open>No promise is fulfilled with an absent value\<close>

lemma getChannel_outcome:
  "(case promises (snd (getChannel e s)) ! fst (getChannel e s) of
      Fulfilled v \<Rightarrow> v \<noteq> None \<and> v = channel s
    | Rejected r \<Rightarrow> channel s = None \<and>
        (socket s = None \<or> channelName s = None \<or> channelName s = Some [])
    | Pending \<Rightarrow> channel s = None \<and> socket s \<noteq> None \<and> channelName s \<noteq> None
        \<and> channelName s \<noteq> Some [])"
proof (cases "channel s")
  case (Some c)
  then show ?thesis by (simp add: getChannel_memo)
next
  case None
  show ?thesis
  proof (cases "socket s")
    case no: None
    show ?thesis using None no by (simp add: getChannel_no_socket [OF None no])
  next
    case (Some k)
    show ?thesis
    proof (cases "channelName s = None \<or> channelName s = Some []")
      case True
      show ?thesis using None True by (simp add: getChannel_no_name [OF None Some True])
    next
      case False
      then obtain n where n: "channelName s = Some n" "n \<noteq> []" by auto
      show ?thesis using None Some n by (simp add: getChannel_join [OF None Some n])
    qed
  qed
qed

lemma noAbsent_establishConnection:
  assumes "Fulfilled None \<notin> set (promises s)" and "SendFulfilled None \<notin> set (sends s)"
  shows "Fulfilled None \<notin> set (promises (establishConnection e s))
    \<and> SendFulfilled None \<notin> set (sends (establishConnection e s))"
proof (cases "\<not> identity_exists e \<or> connected s")
  case True
  then show ?thesis using assms by (simp add: establishConnection_refused)
next
  case False
  then show ?thesis using assms
    by (cases "channel s") (simp_all add: establishConnection_memo establishConnection_join)
qed

lemma noAbsent_send:
  assumes "Fulfilled None \<notin> set (promises s)" and "SendFulfilled None \<notin> set (sends s)"
  shows "Fulfilled None \<notin> set (promises (snd (send e to' data s)))
    \<and> SendFulfilled None \<notin> set (sends (snd (send e to' data s)))"
proof (cases "channel s")
  case (Some c)
  then show ?thesis using assms by (simp add: send_memo)
next
  case None
  show ?thesis
  proof (cases "socket s")
    case no: None
    show ?thesis using assms by (simp add: send_no_socket [OF None no])
  next
    case (Some k)
    show ?thesis
    proof (cases "channelName s = None \<or> channelName s = Some []")
      case True
      show ?thesis using assms by (simp add: send_no_name [OF None Some True])
    next
      case False
      then obtain n where n: "channelName s = Some n" "n \<noteq> []" by auto
      show ?thesis using assms by (simp add: send_join [OF None Some n])
    qed
  qed
qed

lemma noAbsent_joinOk:
  assumes "Fulfilled None \<notin> set (promises s)" and "SendFulfilled None \<notin> set (sends s)"
  shows "Fulfilled None \<notin> set (promises (joinOk e c s))
    \<and> SendFulfilled None \<notin> set (sends (joinOk e c s))"
proof -
  have "set ((promises s)[joinPromise (channels s ! c) := Fulfilled (Some c)])
      \<subseteq> insert (Fulfilled (Some c)) (set (promises s))"
    by (rule set_update_subset_insert)
  then have "Fulfilled None \<notin> set (promises (joinOk e c s))"
    using assms(1) joinOk_channel_promises [of e c s] by auto
  moreover have "SendFulfilled None \<notin> set (sends (joinOk e c s))"
    unfolding joinOk_def Let_def
    by (rule resolve_sends) (simp add: handleConnected_def updateStatus_def assms(2))
  ultimately show ?thesis by simp
qed

lemma noAbsent_pushReceive:
  assumes "SendFulfilled None \<notin> set (sends s)"
  shows "promises (pushReceive e k a s) = promises s
    \<and> SendFulfilled None \<notin> set (sends (pushReceive e k a s))"
proof -
  have "SendFulfilled None \<notin> set ((sends s)[k := v])" if "v \<noteq> SendFulfilled None" for v
    using that assms set_update_subset_insert [of "sends s" k v] by auto
  then show ?thesis using assms
    by (cases a) (simp_all add: pushReceive_def settle_send_def)
qed

lemma noAbsent_step:
  assumes "Fulfilled None \<notin> set (promises s)" and "SendFulfilled None \<notin> set (sends s)"
  shows "Fulfilled None \<notin> set (promises (step e ev s))
    \<and> SendFulfilled None \<notin> set (sends (step e ev s))"
proof (cases ev)
  case Connect
  then show ?thesis using assms by (simp add: connect_cases)
next
  case CanConnectResolved
  then show ?thesis using assms noAbsent_establishConnection [OF assms] by simp
next
  case (Send to' data)
  then show ?thesis using noAbsent_send [OF assms] by simp
next
  case (JoinAck c a)
  then show ?thesis using assms noAbsent_joinOk [OF assms]
    by (cases a) (simp_all add: handleError_def joinTimeout_def)
next
  case (PushAck c i a)
  then show ?thesis using assms noAbsent_pushReceive [OF assms(2)] by simp
next
  case SocketError
  then show ?thesis using assms by (simp add: onSocketError_def updateStatus_def)
next
  case SocketClose
  then show ?thesis using assms by (simp add: onSocketClose_def updateStatus_def)
next
  case ChannelError
  then show ?thesis using assms
    by (simp add: onChannelError_def disconnect_def Let_def split: option.splits)
next
  case ChannelClose
  then show ?thesis using assms
    by (simp add: onChannelClose_def disconnect_def Let_def split: option.splits)
next
  case (Chat d)
  then show ?thesis using assms by (simp add: handleMessage_def)
qed

lemma noAbsent_run:
  "Fulfilled None \<notin> set (promises s) \<Longrightarrow> SendFulfilled None \<notin> set (sends s) \<Longrightarrow>
   Fulfilled None \<notin> set (promises (run e evs s))
    \<and> SendFulfilled None \<notin> set (sends (run e evs s))"
proof (induction evs arbitrary: s)
  case Nil
  then show ?case by simp
next
  case (Cons ev evs)
  have "Fulfilled None \<notin> set (promises (step e ev s))
      \<and> SendFulfilled None \<notin> set (sends (step e ev s))"
    using Cons.prems by (rule noAbsent_step)
  then show ?case by (simp add: Cons.IH)
qed

section \<open>Properties\<close>

subsection \<open>Socket close\<close>

text \<open>
  C9. Handling a socket \<open>close\<close> event, in any state: the status becomes the localized
  message \<open>connection.status.socket.close\<close> at level \<open>info\<close> and \<open>connected\<close>
  becomes false; the stored socket and channel handles, the channel name, and the socket
  and channel objects stay as they were. Nothing else of the state changes.
\<close>

theorem socket_close_clears_connected:
  "onSocketClose e s =
     s\<lparr>status := Some (intl_t e ''connection.status.socket.close''),
       statusLevel := Some ''info'', connected := False\<rparr>
   \<and> status (onSocketClose e s) = Some (intl_t e ''connection.status.socket.close'')
   \<and> statusLevel (onSocketClose e s) = Some ''info''
   \<and> connected (onSocketClose e s) = False
   \<and> socket (onSocketClose e s) = socket s
   \<and> channel (onSocketClose e s) = channel s
   \<and> channelName (onSocketClose e s) = channelName s
   \<and> sockets (onSocketClose e s) = sockets s
   \<and> channels (onSocketClose e s) = channels s
   \<and> step e SocketClose s = (if sockets s = [] then s else onSocketClose e s)"
  by (simp add: onSocketClose_def updateStatus_def)

subsection \<open>Join acknowledgments \<open>error\<close> and \<open>timeout\<close>\<close>

text \<open>
  C2. When the join of a channel is acknowledged with \<open>error\<close> or with \<open>timeout\<close>,
  the event is only logged: the state changes by one console entry
  (\<open>console.error\<close> of the server's data, or \<open>console.info\<close> of the localized
  timeout text) and by nothing else. In particular no promise changes: the promise that
  \<open>getChannel\<close> returned is neither resolved nor rejected on these paths.
\<close>

theorem join_error_timeout_only_logged:
  "step e (JoinAck c (AckError d)) s =
     (if c < length (channels s) then s\<lparr>console := console s @ [ConsoleError d]\<rparr> else s)
   \<and> step e (JoinAck c AckTimeout) s =
     (if c < length (channels s)
      then s\<lparr>console := console s @ [ConsoleInfo (intl_t e ''connection.status.timeout'')]\<rparr>
      else s)
   \<and> promises (step e (JoinAck c (AckError d)) s) = promises s
   \<and> promises (step e (JoinAck c AckTimeout) s) = promises s"
  by (simp add: handleError_def joinTimeout_def)

subsection \<open>send before any channel exists\<close>

text \<open>
  C1. \<open>send\<close> called when no channel is available: the spec has it log the
  localized \<open>connection.errors.send.notConnected\<close> error and return without
  rejecting, and create no socket; \<open>send\<close> has a branch that does so for an absent
  channel. On a new service the code does otherwise: \<open>getChannel\<close> rejects its
  promise with the localized \<open>connection.errors.subscribe.notConnected\<close> text, the
  \<open>await\<close> in \<open>send\<close> throws, and the promise of \<open>send\<close> is rejected with that
  text. The console stays empty; no socket and no channel is created.
\<close>

theorem send_without_channel_rejects:
  "send e to' data init =
     (0, init\<lparr>promises := [Rejected (Text (intl_t e ''connection.errors.subscribe.notConnected''))],
              sends := [SendRejected (Text (intl_t e ''connection.errors.subscribe.notConnected''))]\<rparr>)"
  by (simp add: send_def getChannel_def settle_def init_def)

subsection \<open>The channel name and the socket's parameter\<close>

text \<open>
  C7. With an identity that exists and has a public key \<open>pk\<close>, on a connection that
  is not connected and has no establishment in flight, \<open>connect()\<close> followed by the
  continuation of the task stores the channel name \<open>user:\<close> followed by the hex
  encoding of \<open>pk\<close>, and opens one socket, to the relay's URL, with the connection
  parameter \<open>uid\<close> equal to the hex encoding of \<open>pk\<close>; the socket gets the
  error and close handlers and is connected. When no channel is memoized, the channel
  is created on that socket with the same name as its topic.
\<close>

theorem channel_name_from_public_key:
  assumes "identity_exists e" and "\<not> connected s" and "task s = TaskIdle"
    and "identity_publicKey e = Some pk"
  shows "channelName (run e [Connect, CanConnectResolved] s) = Some (''user:'' @ toHex pk)
    \<and> socket (run e [Connect, CanConnectResolved] s) = Some (length (sockets s))
    \<and> sockets (run e [Connect, CanConnectResolved] s) =
        sockets s @ [\<lparr>endPoint = relay_socket e, params_uid = toHex pk,
          onErrorHandlers = 1, onCloseHandlers = 1, connectCalls = 1, disconnectCalls = 0\<rparr>]
    \<and> (channel s = None \<longrightarrow>
         channel (run e [Connect, CanConnectResolved] s) = Some (length (channels s))
         \<and> channels (run e [Connect, CanConnectResolved] s) =
             channels s @ [\<lparr>topic = ''user:'' @ toHex pk, ofSocket = length (sockets s),
               joinPromise = length (promises s), pushes = []\<rparr>])"
proof -
  have r: "run e [Connect, CanConnectResolved] s = establishConnection e (s\<lparr>task := AwaitCanConnect\<rparr>)"
    using assms(3) by (simp add: connect_cases)
  have u: "userChannelId e = toHex pk"
    using assms(4) by (simp add: userChannelId_def)
  show ?thesis
  proof (cases "channel s")
    case None
    then show ?thesis unfolding r using assms(1,2) by (simp add: establishConnection_join u)
  next
    case (Some c)
    then show ?thesis unfolding r using assms(1,2) by (simp add: establishConnection_memo u)
  qed
qed

theorem channel_name_from_public_key_example:
  "channelName (run \<lparr>identity_exists = True, identity_publicKey = Some [0xAB, 0xCD],
       relay_socket = ''wss://relay.example'', intl_t = id\<rparr> [Connect, CanConnectResolved] init)
     = Some ''user:abcd''
   \<and> sockets (run \<lparr>identity_exists = True, identity_publicKey = Some [0xAB, 0xCD],
       relay_socket = ''wss://relay.example'', intl_t = id\<rparr> [Connect, CanConnectResolved] init)
     = [\<lparr>endPoint = ''wss://relay.example'', params_uid = ''abcd'',
          onErrorHandlers = 1, onCloseHandlers = 1, connectCalls = 1, disconnectCalls = 0\<rparr>]
   \<and> channels (run \<lparr>identity_exists = True, identity_publicKey = Some [0xAB, 0xCD],
       relay_socket = ''wss://relay.example'', intl_t = id\<rparr> [Connect, CanConnectResolved] init)
     = [\<lparr>topic = ''user:abcd'', ofSocket = 0, joinPromise = 0, pushes = []\<rparr>]"
  using channel_name_from_public_key [of "\<lparr>identity_exists = True, identity_publicKey = Some [0xAB, 0xCD],
       relay_socket = ''wss://relay.example'', intl_t = id\<rparr>" init "[0xAB, 0xCD]"]
  by (simp add: init_def toHex_def hexDigit_def)

subsection \<open>connect without an identity, or when connected\<close>

text \<open>
  C8. When the identity does not exist or the connection is already connected,
  \<open>connect()\<close> followed by the continuation of the task is a no-op: the socket,
  the channel, the channel name, \<open>connected\<close>, the status and its level are what they
  were, and no socket or channel object is created. The whole state is unchanged but for
  the task, which has ended (an establishment suspended at \<open>getChannel\<close> stays so).
\<close>

theorem connect_noop_when_cannot_connect:
  assumes "\<not> identity_exists e \<or> connected s"
  shows "run e [Connect, CanConnectResolved] s =
           s\<lparr>task := (case task s of AwaitGetChannel p \<Rightarrow> AwaitGetChannel p | _ \<Rightarrow> TaskIdle)\<rparr>
    \<and> socket (run e [Connect, CanConnectResolved] s) = socket s
    \<and> channel (run e [Connect, CanConnectResolved] s) = channel s
    \<and> channelName (run e [Connect, CanConnectResolved] s) = channelName s
    \<and> connected (run e [Connect, CanConnectResolved] s) = connected s
    \<and> status (run e [Connect, CanConnectResolved] s) = status s
    \<and> statusLevel (run e [Connect, CanConnectResolved] s) = statusLevel s
    \<and> sockets (run e [Connect, CanConnectResolved] s) = sockets s
    \<and> channels (run e [Connect, CanConnectResolved] s) = channels s"
proof -
  have "run e [Connect, CanConnectResolved] s =
           s\<lparr>task := (case task s of AwaitGetChannel p \<Rightarrow> AwaitGetChannel p | _ \<Rightarrow> TaskIdle)\<rparr>"
    using assms by (cases "task s") (simp_all add: connect_cases establishConnection_refused)
  then show ?thesis by (simp only:) simp
qed

theorem connect_noop_when_cannot_connect_example:
  "run \<lparr>identity_exists = False, identity_publicKey = None,
        relay_socket = ''wss://relay.example'', intl_t = id\<rparr> [Connect, CanConnectResolved] init = init
   \<and> run \<lparr>identity_exists = True, identity_publicKey = Some [0xAB, 0xCD],
        relay_socket = ''wss://relay.example'', intl_t = id\<rparr> [Connect, CanConnectResolved]
         (init\<lparr>connected := True\<rparr>) = init\<lparr>connected := True\<rparr>"
  using connect_noop_when_cannot_connect [of "\<lparr>identity_exists = False, identity_publicKey = None,
        relay_socket = ''wss://relay.example'', intl_t = id\<rparr>" init]
    connect_noop_when_cannot_connect [of "\<lparr>identity_exists = True, identity_publicKey = Some [0xAB, 0xCD],
        relay_socket = ''wss://relay.example'', intl_t = id\<rparr>" "init\<lparr>connected := True\<rparr>"]
  by (simp add: init_def)

subsection \<open>A second connect while the first is in flight\<close>

text \<open>
  C3, as stated: two \<open>connect()\<close> calls, the second while the first establishment is
  in flight, create exactly one socket and one channel. This fails when
  \<open>identity.exists()\<close> gives false: the second call is dropped, and the first
  establishment then returns at its guard, so no socket and no channel is created.
\<close>

theorem second_connect_counterexample:
  "sockets (run \<lparr>identity_exists = False, identity_publicKey = None,
       relay_socket = ''wss://relay.example'', intl_t = id\<rparr> [Connect, Connect, CanConnectResolved] init) = []
   \<and> channels (run \<lparr>identity_exists = False, identity_publicKey = None,
       relay_socket = ''wss://relay.example'', intl_t = id\<rparr> [Connect, Connect, CanConnectResolved] init) = []"
  by (simp add: init_def connect_cases establishConnection_refused)

text \<open>
  C3, amended. A \<open>connect()\<close> made while an establishment is in flight is dropped: the
  state, the task included, is unchanged, so nothing is queued; and \<open>connect()\<close> by
  itself never creates a socket or a channel. On a new connection, a \<open>connect()\<close>
  followed by any number of further \<open>connect()\<close> calls before and after the first
  establishment continues creates exactly one socket and exactly one channel when the
  identity exists, and none when it does not.
\<close>

theorem second_connect_dropped:
  "(task s \<noteq> TaskIdle \<longrightarrow> connect s = s)
   \<and> sockets (connect s) = sockets s \<and> channels (connect s) = channels s
   \<and> length (sockets (run e (Connect # replicate n Connect @ CanConnectResolved # replicate m Connect) init))
       = (if identity_exists e then 1 else 0)
   \<and> length (channels (run e (Connect # replicate n Connect @ CanConnectResolved # replicate m Connect) init))
       = (if identity_exists e then 1 else 0)"
proof -
  define s0 where "s0 = init\<lparr>task := AwaitCanConnect\<rparr>"
  define s1 where "s1 = establishConnection e s0"
  have c: "connect init = s0"
    by (simp add: connect_cases init_def s0_def)
  have "run e (replicate n Connect) s0 = s0"
    by (rule run_connects_dropped) (simp add: s0_def)
  then have "run e (Connect # replicate n Connect @ CanConnectResolved # replicate m Connect) init
      = run e (replicate m Connect) s1"
    by (simp add: run_append c s1_def) (simp add: s0_def)
  moreover obtain t where "run e (replicate m Connect) s1 = s1\<lparr>task := t\<rparr>"
    using run_connects_frame [of e m s1] by blast
  ultimately have r: "run e (Connect # replicate n Connect @ CanConnectResolved # replicate m Connect) init
      = s1\<lparr>task := t\<rparr>" by simp
  have "length (sockets s1) = (if identity_exists e then 1 else 0)
      \<and> length (channels s1) = (if identity_exists e then 1 else 0)"
    by (simp add: s1_def s0_def init_def establishConnection_refused establishConnection_join)
  then show ?thesis
    by (simp only: r) (simp add: connect_cases)
qed

theorem second_connect_dropped_example:
  "connect (connect init) = connect init
   \<and> length (sockets (run \<lparr>identity_exists = True, identity_publicKey = Some [0xAB, 0xCD],
        relay_socket = ''wss://relay.example'', intl_t = id\<rparr> [Connect, Connect, CanConnectResolved] init)) = 1
   \<and> length (channels (run \<lparr>identity_exists = True, identity_publicKey = Some [0xAB, 0xCD],
        relay_socket = ''wss://relay.example'', intl_t = id\<rparr> [Connect, Connect, CanConnectResolved] init)) = 1"
  using second_connect_dropped [of "connect init" "\<lparr>identity_exists = True, identity_publicKey = Some [0xAB, 0xCD],
        relay_socket = ''wss://relay.example'', intl_t = id\<rparr>" 1 0]
  by (simp add: connect_cases init_def)

subsection \<open>The channel name and the public key\<close>

text \<open>
  C4. The invariant is that a channel name that is set and not empty implies that a
  public key is present. The code guards the absent key twice: \<open>userChannelId\<close>
  gives the empty string for it, and \<open>getChannel\<close> rejects an absent or empty
  channel name. \<open>establishConnection\<close> defeats both by putting \<open>user:\<close> before the
  empty string. On a new connection, when \<open>identity.exists()\<close> gives true while
  \<open>identity.publicKey\<close> is absent, \<open>connect()\<close> and the continuation of the task
  store the channel name \<open>user:\<close>, open a socket with the empty \<open>uid\<close>, and create
  and join a channel with the topic \<open>user:\<close>; the invariant does not hold of the
  state reached.
\<close>

theorem channel_name_without_key:
  "channelName (run \<lparr>identity_exists = True, identity_publicKey = None,
        relay_socket = ''wss://relay.example'', intl_t = id\<rparr> [Connect, CanConnectResolved] init)
     = Some ''user:''
   \<and> sockets (run \<lparr>identity_exists = True, identity_publicKey = None,
        relay_socket = ''wss://relay.example'', intl_t = id\<rparr> [Connect, CanConnectResolved] init)
     = [\<lparr>endPoint = ''wss://relay.example'', params_uid = [],
          onErrorHandlers = 1, onCloseHandlers = 1, connectCalls = 1, disconnectCalls = 0\<rparr>]
   \<and> channels (run \<lparr>identity_exists = True, identity_publicKey = None,
        relay_socket = ''wss://relay.example'', intl_t = id\<rparr> [Connect, CanConnectResolved] init)
     = [\<lparr>topic = ''user:'', ofSocket = 0, joinPromise = 0, pushes = []\<rparr>]
   \<and> promises (run \<lparr>identity_exists = True, identity_publicKey = None,
        relay_socket = ''wss://relay.example'', intl_t = id\<rparr> [Connect, CanConnectResolved] init)
     = [Pending]
   \<and> \<not> channelNameInv \<lparr>identity_exists = True, identity_publicKey = None,
        relay_socket = ''wss://relay.example'', intl_t = id\<rparr>
      (run \<lparr>identity_exists = True, identity_publicKey = None,
        relay_socket = ''wss://relay.example'', intl_t = id\<rparr> [Connect, CanConnectResolved] init)"
  by (simp add: channelNameInv_def init_def connect_cases establishConnection_join userChannelId_def)

subsection \<open>The join's \<open>ok\<close>\<close>

text \<open>
  C5. When the join of an existing channel \<open>c\<close> is acknowledged with \<open>ok\<close>, the
  connection sets \<open>connected\<close>, sets the status to the localized
  \<open>connection.connected\<close> at level \<open>info\<close>, and calls \<open>dispatcher.pingAll()\<close>
  exactly once. The \<open>getChannel\<close> promise of that join, when pending, is fulfilled
  with the channel \<open>c\<close>; in every state reached from a new connection it is
  fulfilled with \<open>c\<close> after the acknowledgment.
\<close>

theorem join_ok_connects:
  assumes "c < length (channels s)"
  shows "connected (step e (JoinAck c (AckOk d)) s)
    \<and> status (step e (JoinAck c (AckOk d)) s) = Some (intl_t e ''connection.connected'')
    \<and> statusLevel (step e (JoinAck c (AckOk d)) s) = Some ''info''
    \<and> pings (step e (JoinAck c (AckOk d)) s) = Suc (pings s)
    \<and> (joinPromise (channels s ! c) < length (promises s)
          \<and> promises s ! joinPromise (channels s ! c) = Pending \<longrightarrow>
        promises (step e (JoinAck c (AckOk d)) s) ! joinPromise (channels s ! c) = Fulfilled (Some c))
    \<and> (s = run e evs init \<longrightarrow>
        promises (step e (JoinAck c (AckOk d)) s) ! joinPromise (channels s ! c) = Fulfilled (Some c))"
proof -
  have st: "step e (JoinAck c (AckOk d)) s = joinOk e c s"
    using assms by simp
  have "promises (joinOk e c s) ! joinPromise (channels s ! c) = Fulfilled (Some c)"
    if "joinPromise (channels s ! c) < length (promises s)"
      and "promises s ! joinPromise (channels s ! c) = Pending"
    using that joinOk_channel_promises [of e c s] by simp
  moreover have "promises (joinOk e c s) ! joinPromise (channels s ! c) = Fulfilled (Some c)"
    if "s = run e evs init"
  proof -
    have "joinInv s" unfolding that using joinInv_init by (rule joinInv_run)
    then show ?thesis using assms joinInv_joinOk by blast
  qed
  ultimately show ?thesis
    unfolding st using joinOk_fields [of e c s] by blast
qed

theorem join_ok_connects_example:
  "connected (run \<lparr>identity_exists = True, identity_publicKey = Some [0xAB, 0xCD],
        relay_socket = ''wss://relay.example'', intl_t = id\<rparr>
        [Connect, CanConnectResolved, JoinAck 0 (AckOk ''joined'')] init)
   \<and> pings (run \<lparr>identity_exists = True, identity_publicKey = Some [0xAB, 0xCD],
        relay_socket = ''wss://relay.example'', intl_t = id\<rparr>
        [Connect, CanConnectResolved, JoinAck 0 (AckOk ''joined'')] init) = 1
   \<and> promises (run \<lparr>identity_exists = True, identity_publicKey = Some [0xAB, 0xCD],
        relay_socket = ''wss://relay.example'', intl_t = id\<rparr>
        [Connect, CanConnectResolved, JoinAck 0 (AckOk ''joined'')] init) = [Fulfilled (Some 0)]"
  using join_ok_connects [of 0 "run \<lparr>identity_exists = True, identity_publicKey = Some [0xAB, 0xCD],
        relay_socket = ''wss://relay.example'', intl_t = id\<rparr> [Connect, CanConnectResolved] init"
      "\<lparr>identity_exists = True, identity_publicKey = Some [0xAB, 0xCD],
        relay_socket = ''wss://relay.example'', intl_t = id\<rparr>" "''joined''" "[Connect, CanConnectResolved]"]
  by (simp add: init_def connect_cases establishConnection_join joinOk_def handleConnected_def
      updateStatus_def resolve_def settle_def Let_def)

subsection \<open>send on a channel\<close>

text \<open>
  C6. When the connection holds a channel \<open>c\<close>, \<open>send(to, data)\<close> makes exactly
  one push on it, of the event \<open>chat\<close> with the payload \<open>{to, message: data}\<close>, and
  leaves every other channel as it was. The promise it returns waits for the
  acknowledgment of that push: on \<open>ok\<close> it is fulfilled with the server's payload,
  on \<open>error\<close> it is rejected with the server's payload, on \<open>timeout\<close> it is
  rejected with the object whose \<open>reason\<close> is the localized
  \<open>models.message.errors.timeout\<close>.
\<close>

theorem send_pushes_chat:
  assumes "channel s = Some c" and "c < length (channels s)"
  shows "fst (send e to' data s) = length (sends s)
    \<and> channels (snd (send e to' data s)) =
        (channels s)[c := (channels s ! c)\<lparr>pushes := pushes (channels s ! c) @
          [\<lparr>pushEvent = ''chat'', pushPayload = \<lparr>to = to', message = data\<rparr>,
            pushSend = length (sends s)\<rparr>]\<rparr>]
    \<and> pushes (channels (snd (send e to' data s)) ! c) = pushes (channels s ! c) @
          [\<lparr>pushEvent = ''chat'', pushPayload = \<lparr>to = to', message = data\<rparr>,
            pushSend = length (sends s)\<rparr>]
    \<and> sends (snd (send e to' data s)) = sends s @ [AwaitPush c (length (pushes (channels s ! c)))]
    \<and> sends (step e (PushAck c (length (pushes (channels s ! c))) (AckOk d)) (snd (send e to' data s)))
        = sends s @ [SendFulfilled (Some d)]
    \<and> sends (step e (PushAck c (length (pushes (channels s ! c))) (AckError d)) (snd (send e to' data s)))
        = sends s @ [SendRejected (ServerPayload d)]
    \<and> sends (step e (PushAck c (length (pushes (channels s ! c))) AckTimeout) (snd (send e to' data s)))
        = sends s @ [SendRejected (ReasonObject (intl_t e ''models.message.errors.timeout''))]"
  using assms
  by (simp add: send_memo pushReceive_def settle_send_def)


theorem send_pushes_chat_example:
  "pushes (channels (run \<lparr>identity_exists = True, identity_publicKey = Some [0xAB, 0xCD],
        relay_socket = ''wss://relay.example'', intl_t = id\<rparr>
        [Connect, CanConnectResolved, JoinAck 0 (AckOk ''joined''),
         Send ''user:ef01'' ''encryptedpayload''] init) ! 0)
     = [\<lparr>pushEvent = ''chat'',
         pushPayload = \<lparr>to = ''user:ef01'', message = ''encryptedpayload''\<rparr>, pushSend = 0\<rparr>]
   \<and> sends (run \<lparr>identity_exists = True, identity_publicKey = Some [0xAB, 0xCD],
        relay_socket = ''wss://relay.example'', intl_t = id\<rparr>
        [Connect, CanConnectResolved, JoinAck 0 (AckOk ''joined''),
         Send ''user:ef01'' ''encryptedpayload'', PushAck 0 0 (AckOk ''received'')] init)
     = [SendFulfilled (Some ''received'')]"
  using send_pushes_chat [of "run \<lparr>identity_exists = True, identity_publicKey = Some [0xAB, 0xCD],
        relay_socket = ''wss://relay.example'', intl_t = id\<rparr>
        [Connect, CanConnectResolved, JoinAck 0 (AckOk ''joined'')] init" 0
      "\<lparr>identity_exists = True, identity_publicKey = Some [0xAB, 0xCD],
        relay_socket = ''wss://relay.example'', intl_t = id\<rparr>"
      "''user:ef01''" "''encryptedpayload''" "''received''"]
  by (simp add: init_def connect_cases establishConnection_join joinOk_def handleConnected_def
      updateStatus_def resolve_def settle_def Let_def send_memo pushReceive_def settle_send_def)

subsection \<open>getChannel never gives an absent channel\<close>

text \<open>
  C10. The promise that \<open>getChannel\<close> returns is, at the return, fulfilled with the
  memoized channel (never with an absent value), rejected (then no channel is memoized
  and the socket is absent or the channel name is absent or empty), or pending (then a
  channel was made and its join is awaited). Along every run from a new connection no
  \<open>getChannel\<close> promise is ever fulfilled with an absent value. So the branch of
  \<open>send\<close> for an absent channel is never taken: \<open>send\<close> writes nothing to the
  console, and no promise of \<open>send\<close> is ever fulfilled with \<open>undefined\<close>, which
  only that branch does.
\<close>

theorem getChannel_never_absent:
  "(case promises (snd (getChannel e s)) ! fst (getChannel e s) of
      Fulfilled v \<Rightarrow> v \<noteq> None \<and> v = channel s
    | Rejected r \<Rightarrow> channel s = None \<and>
        (socket s = None \<or> channelName s = None \<or> channelName s = Some [])
    | Pending \<Rightarrow> channel s = None \<and> socket s \<noteq> None \<and> channelName s \<noteq> None
        \<and> channelName s \<noteq> Some [])
   \<and> Fulfilled None \<notin> set (promises (run e evs init))
   \<and> SendFulfilled None \<notin> set (sends (run e evs init))
   \<and> console (snd (send e to' data s)) = console s"
proof -
  have "Fulfilled None \<notin> set (promises (run e evs init))
      \<and> SendFulfilled None \<notin> set (sends (run e evs init))"
    by (rule noAbsent_run) (simp_all add: init_def)
  moreover have "console (snd (send e to' data s)) = console s"
  proof -
    obtain chs ps ch sds where "snd (send e to' data s) =
        s\<lparr>channels := chs, promises := ps, channel := ch, sends := sds\<rparr>"
      using send_frame by blast
    then show ?thesis by simp
  qed
  ultimately show ?thesis using getChannel_outcome [where e = e and s = s] by blast
qed

end
